theory Spec2Isabelle
  imports Complex_Main
begin

section \<open>Data model of the canvas table (src/App.tsx)\<close>

text \<open>
  The widget works on JavaScript numbers. Cell indices, item starts and item sizes are
  integers in the program (they come out of \<open>Math.floor\<close> and of integer literals), so
  they are modelled as \<open>int\<close>. Pixel coordinates may be fractional
  (\<open>getBoundingClientRect\<close> returns fractional offsets), so they are modelled as
  \<open>real\<close>: the exact value of the double, with \<open>Math.floor\<close> as \<open>floor\<close> and
  \<open>%\<close> as the truncated remainder.
\<close>

record item =
  startingPosition :: int
  size_cells :: int

datatype drag_type = Start | End | Move

record gesture =
  index :: nat
  type :: drag_type

text \<open>The two React state cells of \<open>CanvasTable\<close>; \<open>None\<close> is JavaScript's \<open>null\<close>.\<close>

record drag_state =
  draggingItem :: "gesture option"
  dragOffset :: "int option"

text \<open>What the handlers read from the canvas and from the mouse event.\<close>

record rect =
  rect_left :: real
  rect_top :: real

record mouse_event =
  clientX :: real
  clientY :: real

datatype cursor_style = EwResize | MoveCursor | DefaultCursor

datatype js_error = TypeError

record move_effects =
  cursorSet :: "cursor_style option"
  callback :: "js_error + (nat \<times> item) option"

definition cellWidth :: int where
  "cellWidth = 80"

definition cellHeight :: int where
  "cellHeight = 30"

definition cols :: int where
  "cols = 8"

definition rowMargin :: int where
  "rowMargin = 4"

definition cellMargin :: int where
  "cellMargin = 4"

section \<open>JavaScript arithmetic\<close>

text \<open>\<open>a % n\<close> on numbers: the remainder of the division truncated towards zero.\<close>

definition js_trunc :: "real \<Rightarrow> int" where
  "js_trunc r = (if r < 0 then \<lceil>r\<rceil> else \<lfloor>r\<rfloor>)"

definition js_rem :: "real \<Rightarrow> real \<Rightarrow> real" where
  "js_rem a n = a - n * real_of_int (js_trunc (a / n))"

text \<open>The same operator on integer operands, as the renderer uses it.\<close>

definition js_rem_int :: "int \<Rightarrow> int \<Rightarrow> int" where
  "js_rem_int a n = (if a < 0 then - ((- a) mod \<bar>n\<bar>) else a mod \<bar>n\<bar>)"

section \<open>Coordinate mapping\<close>

text \<open>
  \<open>Math.floor(y / cellHeight) * cols + Math.floor(x / cellWidth)\<close>, written in both
  \<open>handleMouseDown\<close> and \<open>handleMouseMove\<close>.
\<close>

definition cellIndex :: "real \<Rightarrow> real \<Rightarrow> int" where
  "cellIndex x y =
     \<lfloor>y / real_of_int cellHeight\<rfloor> * cols + \<lfloor>x / real_of_int cellWidth\<rfloor>"

section \<open>Pointer-down\<close>

text \<open>
  The first \<open>data.forEach\<close> of \<open>handleMouseDown\<close>. Each call of \<open>setDraggingItem\<close>
  replaces the pending value of the state cell, so the loop threads the pending value and
  the local flag \<open>isResizing\<close>.
\<close>

fun borderLoop ::
  "item list \<Rightarrow> nat \<Rightarrow> int \<Rightarrow> real \<Rightarrow> gesture option \<times> bool \<Rightarrow> gesture option \<times> bool"
where
  "borderLoop [] i clickedPosition x acc = acc"
| "borderLoop (it # rest) i clickedPosition x (dragging, isResizing) =
     (let startBorder = startingPosition it;
          endBorder = startingPosition it + size_cells it - 1
      in if clickedPosition = startBorder
            \<and> js_rem x (real_of_int cellWidth) \<le> 10
         then borderLoop rest (Suc i) clickedPosition x
                (Some \<lparr>index = i, type = Start\<rparr>, True)
         else if clickedPosition = endBorder
            \<and> real_of_int cellWidth - js_rem x (real_of_int cellWidth) \<le> 10
         then borderLoop rest (Suc i) clickedPosition x
                (Some \<lparr>index = i, type = End\<rparr>, True)
         else borderLoop rest (Suc i) clickedPosition x (dragging, isResizing))"

text \<open>The second \<open>data.forEach\<close>, run only when \<open>isResizing\<close> is false.\<close>

fun moveLoop :: "item list \<Rightarrow> nat \<Rightarrow> int \<Rightarrow> drag_state \<Rightarrow> drag_state" where
  "moveLoop [] i clickedPosition st = st"
| "moveLoop (it # rest) i clickedPosition st =
     (if clickedPosition \<ge> startingPosition it
         \<and> clickedPosition < startingPosition it + size_cells it
      then moveLoop rest (Suc i) clickedPosition
             \<lparr>draggingItem = Some \<lparr>index = i, type = Move\<rparr>,
              dragOffset = Some (clickedPosition - startingPosition it)\<rparr>
      else moveLoop rest (Suc i) clickedPosition st)"

definition handleMouseDown ::
  "item list \<Rightarrow> rect option \<Rightarrow> mouse_event \<Rightarrow> drag_state \<Rightarrow> drag_state"
where
  "handleMouseDown data canvas e st =
     (case canvas of
        None \<Rightarrow> st
      | Some r \<Rightarrow>
          (let x = clientX e - rect_left r;
               y = clientY e - rect_top r;
               clickedPosition = cellIndex x y;
               (dragging, isResizing) =
                 borderLoop data 0 clickedPosition x (draggingItem st, False)
           in if \<not> isResizing
              then moveLoop data 0 clickedPosition (st\<lparr>draggingItem := dragging\<rparr>)
              else st\<lparr>draggingItem := dragging\<rparr>))"

section \<open>Pointer-move\<close>

text \<open>The \<open>data.forEach\<close> of \<open>handleMouseMove\<close> that chooses the cursor.\<close>

fun hoverLoop :: "item list \<Rightarrow> int \<Rightarrow> real \<Rightarrow> bool \<times> bool \<Rightarrow> bool \<times> bool" where
  "hoverLoop [] hoveredPosition x acc = acc"
| "hoverLoop (it # rest) hoveredPosition x (isOnBorder, isOnItem) =
     (let startBorder = startingPosition it;
          endBorder = startingPosition it + size_cells it - 1
      in if (hoveredPosition = startBorder
               \<and> js_rem x (real_of_int cellWidth) \<le> 10)
            \<or> (hoveredPosition = endBorder
               \<and> real_of_int cellWidth - js_rem x (real_of_int cellWidth) \<le> 10)
         then hoverLoop rest hoveredPosition x (True, isOnItem)
         else if hoveredPosition \<ge> startingPosition it
            \<and> hoveredPosition < startingPosition it + size_cells it
         then hoverLoop rest hoveredPosition x (isOnBorder, True)
         else hoverLoop rest hoveredPosition x (isOnBorder, isOnItem))"

definition cursorFor :: "bool \<times> bool \<Rightarrow> cursor_style" where
  "cursorFor flags =
     (case flags of (isOnBorder, isOnItem) \<Rightarrow>
        if isOnBorder then EwResize
        else if isOnItem then MoveCursor
        else DefaultCursor)"

text \<open>
  The gesture part of \<open>handleMouseMove\<close>, lines 119 to 145. \<open>data[index]\<close> beyond the
  list is \<open>undefined\<close>, and reading a field of it throws.
\<close>

definition gestureUpdate ::
  "item list \<Rightarrow> drag_state \<Rightarrow> int \<Rightarrow> js_error + (nat \<times> item) option"
where
  "gestureUpdate data st hoveredPosition =
     (case draggingItem st of
        None \<Rightarrow> Inr None
      | Some g \<Rightarrow>
          if index g < length data then
            (let it = data ! index g in
             if type g = Move then
               (let newPosition =
                      hoveredPosition - (case dragOffset st of None \<Rightarrow> 0 | Some d \<Rightarrow> d)
                in if newPosition \<noteq> startingPosition it
                   then Inr (Some (index g,
                          \<lparr>startingPosition = newPosition, size_cells = size_cells it\<rparr>))
                   else Inr None)
             else if type g = Start
                 \<and> hoveredPosition < startingPosition it + size_cells it - 1
             then Inr (Some (index g,
                    \<lparr>startingPosition = hoveredPosition,
                     size_cells = size_cells it + (startingPosition it - hoveredPosition)\<rparr>))
             else if type g = End \<and> hoveredPosition > startingPosition it
             then Inr (Some (index g,
                    \<lparr>startingPosition = startingPosition it,
                     size_cells = hoveredPosition - startingPosition it + 1\<rparr>))
             else Inr None)
          else Inl TypeError)"

definition handleMouseMove ::
  "item list \<Rightarrow> rect option \<Rightarrow> mouse_event \<Rightarrow> drag_state \<Rightarrow> move_effects"
where
  "handleMouseMove data canvas e st =
     (case canvas of
        None \<Rightarrow> \<lparr>cursorSet = None, callback = Inr None\<rparr>
      | Some r \<Rightarrow>
          (let x = clientX e - rect_left r;
               y = clientY e - rect_top r;
               hoveredPosition = cellIndex x y
           in \<lparr>cursorSet = Some (cursorFor (hoverLoop data hoveredPosition x (False, False))),
               callback = gestureUpdate data st hoveredPosition\<rparr>))"

definition handleMouseUp :: "drag_state \<Rightarrow> drag_state" where
  "handleMouseUp st = \<lparr>draggingItem = None, dragOffset = None\<rparr>"

section \<open>Renderer: splitting a span into row segments\<close>

text \<open>
  One iteration of the \<open>while\<close> loop of the drawing effect: the locals of the iteration
  and the four arguments of \<open>ctx.fillRect\<close>. On integers \<open>Math.floor(p / cols)\<close> is
  \<open>p div cols\<close>.
\<close>

record segment =
  seg_position :: int
  seg_row :: int
  seg_col :: int
  cellsInRow :: int
  isFirstCell :: bool
  isLastCell :: bool
  fill_x :: int
  fill_y :: int
  fill_width :: int
  fill_height :: int

definition segmentAt :: "int \<Rightarrow> int \<Rightarrow> int \<Rightarrow> int \<Rightarrow> segment" where
  "segmentAt startPos sz remainingSize currentPosition =
     (let row = currentPosition div cols;
          col = js_rem_int currentPosition cols;
          x = col * cellWidth;
          y = row * cellHeight + rowMargin;
          cells = min remainingSize (cols - col);
          isFirst = (currentPosition = startPos);
          isLast = (currentPosition + cells - 1 = startPos + sz - 1);
          adjustedX = x + (if isFirst then cellMargin else 0);
          adjustedWidth = cells * cellWidth
                          - (if isFirst then cellMargin else 0)
                          - (if isLast then cellMargin else 0);
          height = cellHeight - 2 * rowMargin
      in \<lparr>seg_position = currentPosition, seg_row = row, seg_col = col,
          cellsInRow = cells, isFirstCell = isFirst, isLastCell = isLast,
          fill_x = adjustedX, fill_y = y, fill_width = adjustedWidth,
          fill_height = height\<rparr>)"

text \<open>
  The loop \<open>while (remainingSize > 0)\<close>. Every iteration takes at least one cell, because
  the column is below \<open>cols\<close>, so the loop ends.
\<close>

function drawLoop :: "int \<Rightarrow> int \<Rightarrow> int \<Rightarrow> int \<Rightarrow> segment list" where
  "drawLoop startPos sz remainingSize currentPosition =
     (if remainingSize > 0
      then segmentAt startPos sz remainingSize currentPosition
           # drawLoop startPos sz
               (remainingSize - cellsInRow (segmentAt startPos sz remainingSize currentPosition))
               (currentPosition + cellsInRow (segmentAt startPos sz remainingSize currentPosition))
      else [])"
  by pat_completeness auto
termination
proof (relation "measure (\<lambda>(s, z, r, c). nat r)")
  show "wf (measure (\<lambda>(s, z, r, c). nat r))" by simp
next
  fix s z r c :: int
  assume pos: "0 < r"
  have "js_rem_int c cols < cols"
    by (simp add: js_rem_int_def cols_def) (smt (verit) pos_mod_bound pos_mod_sign)
  moreover have "cellsInRow (segmentAt s z r c) = min r (cols - js_rem_int c cols)"
    by (simp add: segmentAt_def Let_def)
  ultimately have "0 < cellsInRow (segmentAt s z r c)"
    using pos by simp
  then show "((s, z, r - cellsInRow (segmentAt s z r c), c + cellsInRow (segmentAt s z r c)),
              (s, z, r, c)) \<in> measure (\<lambda>(s, z, r, c). nat r)"
    using pos by simp
qed

declare drawLoop.simps [simp del]

definition drawItem :: "item \<Rightarrow> segment list" where
  "drawItem it =
     drawLoop (startingPosition it) (size_cells it) (size_cells it) (startingPosition it)"

definition drawItems :: "item list \<Rightarrow> segment list list" where
  "drawItems data = map drawItem data"

section \<open>The owner of the item list (App)\<close>

definition initialData :: "item list" where
  "initialData = [\<lparr>startingPosition = 5, size_cells = 10\<rparr>,
                  \<lparr>startingPosition = 20, size_cells = 15\<rparr>]"

definition gridSize :: int where
  "gridSize = 48"

definition noGesture :: drag_state where
  "noGesture = \<lparr>draggingItem = None, dragOffset = None\<rparr>"

text \<open>\<open>prevData.map((item, i) => i === index ? {...item, ...updatedItem} : item)\<close>\<close>

definition handleUpdateItem :: "item list \<Rightarrow> nat \<Rightarrow> item \<Rightarrow> item list" where
  "handleUpdateItem prevData i updatedItem =
     map (\<lambda>(k, it). if k = i then updatedItem else it) (zip [0..<length prevData] prevData)"

section \<open>Vocabulary of the properties\<close>

text \<open>The pixel position and the cell a handler computes from an event.\<close>

definition pointerX :: "rect \<Rightarrow> mouse_event \<Rightarrow> real" where
  "pointerX r e = clientX e - rect_left r"

definition pointerY :: "rect \<Rightarrow> mouse_event \<Rightarrow> real" where
  "pointerY r e = clientY e - rect_top r"

definition pointerCell :: "rect \<Rightarrow> mouse_event \<Rightarrow> int" where
  "pointerCell r e = cellIndex (pointerX r e) (pointerY r e)"

text \<open>
  Which border test of the first pointer-down loop an item passes at a clicked cell and
  pixel column, and whether it passes the test of the second loop.
\<close>

definition borderHit :: "item \<Rightarrow> int \<Rightarrow> real \<Rightarrow> drag_type option" where
  "borderHit it clickedPosition x =
     (if clickedPosition = startingPosition it
         \<and> js_rem x (real_of_int cellWidth) \<le> 10
      then Some Start
      else if clickedPosition = startingPosition it + size_cells it - 1
         \<and> real_of_int cellWidth - js_rem x (real_of_int cellWidth) \<le> 10
      then Some End
      else None)"

definition moveHit :: "item \<Rightarrow> int \<Rightarrow> bool" where
  "moveHit it clickedPosition =
     (clickedPosition \<ge> startingPosition it
      \<and> clickedPosition < startingPosition it + size_cells it)"

text \<open>
  The reading "first matching item wins" of the specification: the earliest item, in list
  order, that passes a border test.
\<close>

fun firstBorderMatch :: "item list \<Rightarrow> nat \<Rightarrow> int \<Rightarrow> real \<Rightarrow> gesture option" where
  "firstBorderMatch [] i clickedPosition x = None"
| "firstBorderMatch (it # rest) i clickedPosition x =
     (case borderHit it clickedPosition x of
        Some t \<Rightarrow> Some \<lparr>index = i, type = t\<rparr>
      | None \<Rightarrow> firstBorderMatch rest (Suc i) clickedPosition x)"

text \<open>
  The glossary's reading of a segment, "the portion of an item's span that lies within a
  single grid row": the first and the last cell of the segment are in the row the segment is
  drawn in.
\<close>

definition liesInOneRow :: "segment \<Rightarrow> bool" where
  "liesInOneRow g =
     (seg_position g div cols = seg_row g
      \<and> (seg_position g + cellsInRow g - 1) div cols = seg_row g)"

section \<open>Concrete inputs\<close>

text \<open>A canvas at the origin of the viewport, and two item lists with overlapping items.\<close>

definition canvasOrigin :: rect where
  "canvasOrigin = \<lparr>rect_left = 0, rect_top = 0\<rparr>"

definition twoStarts :: "item list" where
  "twoStarts = [\<lparr>startingPosition = 5, size_cells = 10\<rparr>,
                \<lparr>startingPosition = 5, size_cells = 3\<rparr>]"

definition overlapping :: "item list" where
  "overlapping = [\<lparr>startingPosition = 5, size_cells = 10\<rparr>,
                  \<lparr>startingPosition = 8, size_cells = 4\<rparr>]"

section \<open>Facts about the two pointer-down loops\<close>

lemma borderLoop_Cons:
  "borderLoop (a # xs) i p x acc =
     borderLoop xs (Suc i) p x
       (case borderHit a p x of
          Some t \<Rightarrow> (Some \<lparr>index = i, type = t\<rparr>, True)
        | None \<Rightarrow> acc)"
  by (cases acc) (auto simp: borderHit_def Let_def)

lemma borderLoop_miss:
  "\<forall>it \<in> set xs. borderHit it p x = None \<Longrightarrow> borderLoop xs i p x acc = acc"
  by (induction xs arbitrary: i) (simp_all add: borderLoop_Cons del: borderLoop.simps(2))

lemma borderLoop_append:
  "borderLoop (xs @ ys) i p x acc = borderLoop ys (i + length xs) p x (borderLoop xs i p x acc)"
  by (induction xs arbitrary: i acc) (simp_all add: borderLoop_Cons del: borderLoop.simps(2))

lemma borderLoop_last:
  assumes "i < length data" and "borderHit (data ! i) p x = Some t"
    and "\<forall>j. i < j \<and> j < length data \<longrightarrow> borderHit (data ! j) p x = None"
  shows "borderLoop data 0 p x acc = (Some \<lparr>index = i, type = t\<rparr>, True)"
proof -
  have split: "data = take i data @ [data ! i] @ drop (Suc i) data"
    using assms(1) by (simp add: Cons_nth_drop_Suc)
  have miss: "\<forall>it \<in> set (drop (Suc i) data). borderHit it p x = None"
  proof
    fix it assume "it \<in> set (drop (Suc i) data)"
    then obtain k where "k < length (drop (Suc i) data)" "it = drop (Suc i) data ! k"
      by (auto simp: in_set_conv_nth)
    then show "borderHit it p x = None" using assms(3) by simp
  qed
  have "borderLoop data 0 p x acc =
        borderLoop (take i data @ [data ! i] @ drop (Suc i) data) 0 p x acc"
    using split by simp
  also have "\<dots> = (Some \<lparr>index = i, type = t\<rparr>, True)"
    using assms(1)
    by (simp add: borderLoop_append borderLoop_Cons assms(2) borderLoop_miss [OF miss]
          del: borderLoop.simps(2))
  finally show ?thesis .
qed

lemma moveLoop_Cons:
  "moveLoop (a # xs) i p st =
     moveLoop xs (Suc i) p
       (if moveHit a p
        then \<lparr>draggingItem = Some \<lparr>index = i, type = Move\<rparr>,
              dragOffset = Some (p - startingPosition a)\<rparr>
        else st)"
  by (simp add: moveHit_def)

lemma moveLoop_miss:
  "\<forall>it \<in> set xs. \<not> moveHit it p \<Longrightarrow> moveLoop xs i p st = st"
  by (induction xs arbitrary: i) (simp_all add: moveLoop_Cons del: moveLoop.simps(2))

lemma moveLoop_append:
  "moveLoop (xs @ ys) i p st = moveLoop ys (i + length xs) p (moveLoop xs i p st)"
  by (induction xs arbitrary: i st) (simp_all add: moveLoop_Cons del: moveLoop.simps(2))

lemma moveLoop_last:
  assumes "i < length data" and "moveHit (data ! i) p"
    and "\<forall>j. i < j \<and> j < length data \<longrightarrow> \<not> moveHit (data ! j) p"
  shows "moveLoop data 0 p st =
           \<lparr>draggingItem = Some \<lparr>index = i, type = Move\<rparr>,
            dragOffset = Some (p - startingPosition (data ! i))\<rparr>"
proof -
  have split: "data = take i data @ [data ! i] @ drop (Suc i) data"
    using assms(1) by (simp add: Cons_nth_drop_Suc)
  have miss: "\<forall>it \<in> set (drop (Suc i) data). \<not> moveHit it p"
  proof
    fix it assume "it \<in> set (drop (Suc i) data)"
    then obtain k where "k < length (drop (Suc i) data)" "it = drop (Suc i) data ! k"
      by (auto simp: in_set_conv_nth)
    then show "\<not> moveHit it p" using assms(3) by simp
  qed
  have "moveLoop data 0 p st =
        moveLoop (take i data @ [data ! i] @ drop (Suc i) data) 0 p st"
    using split by simp
  also have "\<dots> = \<lparr>draggingItem = Some \<lparr>index = i, type = Move\<rparr>,
            dragOffset = Some (p - startingPosition (data ! i))\<rparr>"
    using assms(1)
    by (simp add: moveLoop_append moveLoop_Cons assms(2) moveLoop_miss [OF miss]
          del: moveLoop.simps(2))
  finally show ?thesis .
qed

lemma handleMouseDown_unfold:
  "handleMouseDown data (Some r) e st =
     (if snd (borderLoop data 0 (pointerCell r e) (pointerX r e) (draggingItem st, False))
      then st\<lparr>draggingItem := fst (borderLoop data 0 (pointerCell r e) (pointerX r e) (draggingItem st, False))\<rparr>
      else moveLoop data 0 (pointerCell r e)
             (st\<lparr>draggingItem := fst (borderLoop data 0 (pointerCell r e) (pointerX r e) (draggingItem st, False))\<rparr>))"
  by (simp add: handleMouseDown_def pointerCell_def pointerX_def pointerY_def Let_def
        split: prod.splits)

lemmas consts_defs = cellWidth_def cellHeight_def cols_def rowMargin_def cellMargin_def

lemmas pointer_defs = pointerCell_def pointerX_def pointerY_def cellIndex_def
  js_rem_def js_trunc_def consts_defs

lemma list_all_drop_nth:
  assumes "list_all P (drop k xs)"
  shows "\<forall>j. k \<le> j \<and> j < length xs \<longrightarrow> P (xs ! j)"
proof (intro allI impI)
  fix j assume "k \<le> j \<and> j < length xs"
  then have j: "k \<le> j" "j < length xs" by simp_all
  then have "j - k < length (drop k xs)" by simp
  with assms have "P (drop k xs ! (j - k))" by (simp add: list_all_length)
  with j show "P (xs ! j)" by simp
qed

section \<open>Facts about pointer-move, the coordinate mapping and the renderer\<close>

lemma callback_handleMouseMove:
  "callback (handleMouseMove data (Some r) e st) = gestureUpdate data st (pointerCell r e)"
  by (simp add: handleMouseMove_def pointerCell_def pointerX_def pointerY_def Let_def)

lemma floor_in_cell:
  fixes x w :: real and c :: int
  assumes "0 < w" and "w * real_of_int c \<le> x" and "x < w * real_of_int c + w"
  shows "\<lfloor>x / w\<rfloor> = c"
proof (rule floor_unique)
  show "real_of_int c \<le> x / w"
    using assms by (simp add: pos_le_divide_eq mult.commute)
  have "x < (real_of_int c + 1) * w"
    using assms(3) by (simp add: algebra_simps)
  then show "x / w < real_of_int c + 1"
    using assms(1) by (simp add: pos_divide_less_eq)
qed

lemma drawLoop_unfold:
  "drawLoop s z r c =
     (if r > 0
      then segmentAt s z r c
           # drawLoop s z (r - cellsInRow (segmentAt s z r c))
               (c + cellsInRow (segmentAt s z r c))
      else [])"
  by (rule drawLoop.simps)

lemma segmentAt_fields:
  "seg_position (segmentAt s z r c) = c"
  "seg_row (segmentAt s z r c) = c div cols"
  "seg_col (segmentAt s z r c) = js_rem_int c cols"
  "cellsInRow (segmentAt s z r c) = min r (cols - js_rem_int c cols)"
  by (simp_all add: segmentAt_def Let_def)

lemma drawLoop_nth:
  "k < length (drawLoop s z r c) \<Longrightarrow>
     seg_position (drawLoop s z r c ! k)
       = c + sum_list (map cellsInRow (take k (drawLoop s z r c)))
     \<and> seg_row (drawLoop s z r c ! k) = seg_position (drawLoop s z r c ! k) div cols
     \<and> seg_col (drawLoop s z r c ! k) = js_rem_int (seg_position (drawLoop s z r c ! k)) cols
     \<and> cellsInRow (drawLoop s z r c ! k)
       = min (r - sum_list (map cellsInRow (take k (drawLoop s z r c))))
             (cols - seg_col (drawLoop s z r c ! k))"
proof (induction s z r c arbitrary: k rule: drawLoop.induct)
  case (1 s z r c)
  let ?g = "segmentAt s z r c"
  let ?rest = "drawLoop s z (r - cellsInRow ?g) (c + cellsInRow ?g)"
  from "1.prems" have pos: "0 < r"
    by (subst (asm) drawLoop_unfold) (simp split: if_splits)
  then have unf: "drawLoop s z r c = ?g # ?rest"
    by (subst drawLoop_unfold) simp
  show ?case
  proof (cases k)
    case 0
    then show ?thesis by (simp add: unf segmentAt_fields)
  next
    case (Suc k')
    with "1.prems" have "k' < length ?rest" by (simp add: unf)
    from "1.IH" [OF pos this] show ?thesis
      by (simp add: unf Suc algebra_simps)
  qed
qed

lemma drawItem_example:
  "drawItem \<lparr>startingPosition = 5, size_cells = 10\<rparr>
     = [segmentAt 5 10 10 5, segmentAt 5 10 7 8]"
  by (simp add: drawItem_def drawLoop_unfold [of _ _ 10] drawLoop_unfold [of _ _ 7]
        drawLoop_unfold [of _ _ 0] segmentAt_fields js_rem_int_def cols_def)

lemma js_rem_int_cols_less: "js_rem_int c cols < cols"
  by (simp add: js_rem_int_def cols_def) (smt (verit) pos_mod_bound pos_mod_sign)

lemma cellsInRow_segmentAt_pos: "0 < r \<Longrightarrow> 0 < cellsInRow (segmentAt s z r c)"
  using js_rem_int_cols_less [of c] by (simp add: segmentAt_fields)

lemma cellsInRow_segmentAt_le: "cellsInRow (segmentAt s z r c) \<le> r"
  by (simp add: segmentAt_fields)

lemma drawLoop_Nil: "r \<le> 0 \<Longrightarrow> drawLoop s z r c = []"
  by (subst drawLoop_unfold) simp

lemma drawLoop_Cons:
  "0 < r \<Longrightarrow> drawLoop s z r c =
     segmentAt s z r c
     # drawLoop s z (r - cellsInRow (segmentAt s z r c)) (c + cellsInRow (segmentAt s z r c))"
  by (subst drawLoop_unfold) simp

lemma drawLoop_sum:
  "sum_list (map cellsInRow (drawLoop s z r c)) = max 0 r"
proof (induction s z r c rule: drawLoop.induct)
  case (1 s z r c)
  show ?case
  proof (cases "0 < r")
    case True
    from "1.IH" [OF True] cellsInRow_segmentAt_le [of s z r c] True
    show ?thesis by (simp add: drawLoop_Cons [OF True])
  next
    case False
    then show ?thesis by (simp add: drawLoop_Nil)
  qed
qed

lemma drawLoop_cells_pos:
  "g \<in> set (drawLoop s z r c) \<Longrightarrow> 0 < cellsInRow g"
proof (induction s z r c rule: drawLoop.induct)
  case (1 s z r c)
  show ?case
  proof (cases "0 < r")
    case True
    with "1.prems" "1.IH" [OF True] cellsInRow_segmentAt_pos [OF True, of s z c]
    show ?thesis by (auto simp: drawLoop_Cons [OF True])
  next
    case False
    with "1.prems" show ?thesis by (simp add: drawLoop_Nil)
  qed
qed

lemma row_arith:
  fixes c n :: int
  assumes "0 \<le> c" and "1 \<le> n" and "n \<le> 8 - c mod 8"
  shows "(c + n - 1) div 8 = c div 8"
proof -
  have "c + n - 1 = 8 * (c div 8) + (c mod 8 + n - 1)" by simp
  moreover have "0 \<le> c mod 8 + n - 1" "c mod 8 + n - 1 < 8" using assms by simp_all
  ultimately show ?thesis
    by (metis add.commute div_mult_self2 div_pos_pos_trivial add_0 zero_neq_numeral mult.commute)
qed

lemma segmentAt_one_row:
  assumes "0 \<le> c" and "0 < r"
  shows "liesInOneRow (segmentAt s z r c)"
    and "0 \<le> seg_col (segmentAt s z r c)"
    and "seg_col (segmentAt s z r c) + cellsInRow (segmentAt s z r c) \<le> cols"
proof -
  have col: "js_rem_int c cols = c mod 8" "js_rem_int c 8 = c mod 8"
    using assms(1) by (simp_all add: js_rem_int_def cols_def)
  have "1 \<le> min r (8 - c mod 8)" using assms(2) by simp
  then have "(c + min r (8 - c mod 8) - 1) div 8 = c div 8"
    using assms(1) by (intro row_arith) simp_all
  then show "liesInOneRow (segmentAt s z r c)"
    by (simp add: liesInOneRow_def segmentAt_fields col cols_def)
  show "0 \<le> seg_col (segmentAt s z r c)" by (simp add: segmentAt_fields col)
  show "seg_col (segmentAt s z r c) + cellsInRow (segmentAt s z r c) \<le> cols"
    by (simp add: segmentAt_fields col cols_def)
qed

lemma drawLoop_one_row:
  "0 \<le> c \<Longrightarrow> g \<in> set (drawLoop s z r c) \<Longrightarrow>
     liesInOneRow g \<and> 0 \<le> seg_col g \<and> seg_col g + cellsInRow g \<le> cols"
proof (induction s z r c rule: drawLoop.induct)
  case (1 s z r c)
  show ?case
  proof (cases "0 < r")
    case True
    have "0 \<le> c + cellsInRow (segmentAt s z r c)"
      using "1.prems"(1) cellsInRow_segmentAt_pos [OF True, of s z c] by simp
    with "1.prems" "1.IH" [OF True] segmentAt_one_row [OF "1.prems"(1) True, of s z]
    show ?thesis by (auto simp: drawLoop_Cons [OF True])
  next
    case False
    with "1.prems" show ?thesis by (simp add: drawLoop_Nil)
  qed
qed

lemma drawLoop_length:
  "0 \<le> c \<Longrightarrow> 0 < r \<Longrightarrow>
     int (length (drawLoop s z r c)) = (c + r - 1) div cols - c div cols + 1"
proof (induction s z r c rule: drawLoop.induct)
  case (1 s z r c)
  let ?n = "cellsInRow (segmentAt s z r c)"
  have pos: "0 < r" by (rule "1.prems"(2))
  have col: "js_rem_int c cols = c mod 8" "js_rem_int c 8 = c mod 8"
    using "1.prems"(1) by (simp_all add: js_rem_int_def cols_def)
  have n: "?n = min r (8 - c mod 8)" by (simp add: segmentAt_fields col cols_def)
  show ?case
  proof (cases "r \<le> 8 - c mod 8")
    case True
    then have "?n = r" by (simp add: n)
    moreover have "(c + r - 1) div 8 = c div 8"
      using "1.prems" True by (intro row_arith) simp_all
    ultimately show ?thesis
      by (simp add: drawLoop_Cons [OF pos] drawLoop_Nil cols_def)
  next
    case False
    then have nn: "?n = 8 - c mod 8" by (simp add: n)
    have c': "c + ?n = 8 * (c div 8 + 1)"
      by (simp add: nn minus_mod_eq_mult_div)
    have r': "0 < r - ?n" using False by (simp add: nn)
    have "0 \<le> c + ?n" using "1.prems"(1) by (simp add: nn)
    from "1.IH" [OF pos this r']
    have "int (length (drawLoop s z (r - ?n) (c + ?n)))
            = (c + ?n + (r - ?n) - 1) div 8 - (c + ?n) div 8 + 1"
      by (simp add: cols_def)
    also have "(c + ?n) div 8 = c div 8 + 1" by (simp add: c')
    finally show ?thesis
      by (simp add: drawLoop_Cons [OF pos] cols_def)
  qed
qed

lemma drawItem_negative_start:
  "drawItem \<lparr>startingPosition = - 1, size_cells = 15\<rparr>
     = [segmentAt (- 1) 15 15 (- 1), segmentAt (- 1) 15 6 8]"
  by (simp add: drawItem_def drawLoop_unfold [of _ _ 15] drawLoop_unfold [of _ _ 6]
        drawLoop_unfold [of _ _ 0] segmentAt_fields js_rem_int_def cols_def)

lemma drawItem_three_rows:
  "drawItem \<lparr>startingPosition = 20, size_cells = 15\<rparr>
     = [segmentAt 20 15 15 20, segmentAt 20 15 11 24, segmentAt 20 15 3 32]"
  by (simp add: drawItem_def drawLoop_unfold [of _ _ 15] drawLoop_unfold [of _ _ 11]
        drawLoop_unfold [of _ _ 3] drawLoop_unfold [of _ _ 0] segmentAt_fields js_rem_int_def
        cols_def)

section \<open>Pointer-down: which item a gesture binds to\<close>

text \<open>
  Claim C1, as the code has it. When at least one item passes a border test at the clicked
  cell and pixel column, the gesture is bound to the last such item in list order, with that
  item's border type: every match calls \<open>setDraggingItem\<close> again and \<open>forEach\<close> does
  not stop. The move-hit loop is then skipped: the result is a resize gesture, never a move,
  and the captured offset keeps its previous value.
\<close>

theorem pointer_down_border_last_match:
  assumes "i < length data"
    and "borderHit (data ! i) (pointerCell r e) (pointerX r e) = Some t"
    and "list_all (\<lambda>it. borderHit it (pointerCell r e) (pointerX r e) = None)
           (drop (Suc i) data)"
  shows "handleMouseDown data (Some r) e st =
           \<lparr>draggingItem = Some \<lparr>index = i, type = t\<rparr>, dragOffset = dragOffset st\<rparr>
         \<and> t \<noteq> Move"
proof -
  have later: "\<forall>j. i < j \<and> j < length data \<longrightarrow>
                 borderHit (data ! j) (pointerCell r e) (pointerX r e) = None"
    using list_all_drop_nth [OF assms(3)] by (simp add: Suc_le_eq)
  have loop: "borderLoop data 0 (pointerCell r e) (pointerX r e) (draggingItem st, False) =
                (Some \<lparr>index = i, type = t\<rparr>, True)"
    by (rule borderLoop_last [OF assms(1) assms(2) later])
  have "t \<noteq> Move"
    using assms(2) by (auto simp: borderHit_def split: if_splits)
  then show ?thesis
    by (simp add: handleMouseDown_unfold loop)
qed

text \<open>
  The theorem at two items that both start at cell 5, clicked 3 pixels into cell 5: both pass
  the start-border test and the second one is bound.
\<close>

theorem pointer_down_border_last_match_witness:
  "borderHit (twoStarts ! 0) (pointerCell canvasOrigin \<lparr>clientX = 403, clientY = 10\<rparr>)
      (pointerX canvasOrigin \<lparr>clientX = 403, clientY = 10\<rparr>) = Some Start
   \<and> borderHit (twoStarts ! 1) (pointerCell canvasOrigin \<lparr>clientX = 403, clientY = 10\<rparr>)
      (pointerX canvasOrigin \<lparr>clientX = 403, clientY = 10\<rparr>) = Some Start
   \<and> handleMouseDown twoStarts (Some canvasOrigin) \<lparr>clientX = 403, clientY = 10\<rparr> noGesture =
       \<lparr>draggingItem = Some \<lparr>index = 1, type = Start\<rparr>, dragOffset = None\<rparr>"
proof -
  let ?e = "\<lparr>clientX = 403, clientY = 10\<rparr>"
  have h1: "1 < length twoStarts" by (simp add: twoStarts_def)
  have h0: "borderHit (twoStarts ! 0) (pointerCell canvasOrigin ?e) (pointerX canvasOrigin ?e)
              = Some Start"
    by (simp add: twoStarts_def canvasOrigin_def borderHit_def pointer_defs)
  have h2: "borderHit (twoStarts ! 1) (pointerCell canvasOrigin ?e) (pointerX canvasOrigin ?e)
              = Some Start"
    by (simp add: twoStarts_def canvasOrigin_def borderHit_def pointer_defs)
  have h3: "list_all (\<lambda>it. borderHit it (pointerCell canvasOrigin ?e) (pointerX canvasOrigin ?e)
              = None) (drop (Suc 1) twoStarts)"
    by (simp add: twoStarts_def)
  show ?thesis
    using pointer_down_border_last_match [OF h1 h2 h3, of noGesture] h0 h2
    by (simp add: noGesture_def)
qed

text \<open>
  Claim C1 as the specification words it, "the first matching item in list order wins",
  fails on the same input: the earliest matching item is item 0, the handler binds item 1.
\<close>

theorem first_border_match_counterexample:
  "firstBorderMatch twoStarts 0 (pointerCell canvasOrigin \<lparr>clientX = 403, clientY = 10\<rparr>)
      (pointerX canvasOrigin \<lparr>clientX = 403, clientY = 10\<rparr>)
     = Some \<lparr>index = 0, type = Start\<rparr>
   \<and> draggingItem (handleMouseDown twoStarts (Some canvasOrigin)
        \<lparr>clientX = 403, clientY = 10\<rparr> noGesture)
     = Some \<lparr>index = 1, type = Start\<rparr>"
  by (simp add: twoStarts_def canvasOrigin_def noGesture_def handleMouseDown_def borderHit_def
        pointer_defs Let_def)

text \<open>
  Claim C8. When no item passes a border test and the clicked cell lies in the span of at
  least one item, the gesture is bound to the last such item in list order, as a move, with
  offset the clicked cell minus that item's start.
\<close>

theorem pointer_down_move_last_match:
  assumes "list_all (\<lambda>it. borderHit it (pointerCell r e) (pointerX r e) = None) data"
    and "i < length data"
    and "moveHit (data ! i) (pointerCell r e)"
    and "list_all (\<lambda>it. \<not> moveHit it (pointerCell r e)) (drop (Suc i) data)"
  shows "handleMouseDown data (Some r) e st =
           \<lparr>draggingItem = Some \<lparr>index = i, type = Move\<rparr>,
            dragOffset = Some (pointerCell r e - startingPosition (data ! i))\<rparr>"
proof -
  have none: "\<forall>it \<in> set data. borderHit it (pointerCell r e) (pointerX r e) = None"
    using assms(1) by (simp add: list_all_iff)
  have border: "borderLoop data 0 (pointerCell r e) (pointerX r e) (draggingItem st, False) =
                  (draggingItem st, False)"
    by (rule borderLoop_miss [OF none])
  have later: "\<forall>j. i < j \<and> j < length data \<longrightarrow> \<not> moveHit (data ! j) (pointerCell r e)"
    using list_all_drop_nth [OF assms(4)] by (simp add: Suc_le_eq)
  show ?thesis
    by (simp add: handleMouseDown_unfold border moveLoop_last [OF assms(2) assms(3) later])
qed

text \<open>
  The theorem at two overlapping items, spans 5 to 14 and 8 to 11, clicked in the middle of
  cell 9: both contain the cell and the second one is bound, with offset 1.
\<close>

theorem pointer_down_move_last_match_witness:
  "moveHit (overlapping ! 0) (pointerCell canvasOrigin \<lparr>clientX = 120, clientY = 40\<rparr>)
   \<and> moveHit (overlapping ! 1) (pointerCell canvasOrigin \<lparr>clientX = 120, clientY = 40\<rparr>)
   \<and> handleMouseDown overlapping (Some canvasOrigin) \<lparr>clientX = 120, clientY = 40\<rparr> noGesture =
       \<lparr>draggingItem = Some \<lparr>index = 1, type = Move\<rparr>, dragOffset = Some 1\<rparr>"
proof -
  let ?e = "\<lparr>clientX = 120, clientY = 40\<rparr>"
  have cell: "pointerCell canvasOrigin ?e = 9"
    by (simp add: canvasOrigin_def pointer_defs)
  have h1: "list_all (\<lambda>it. borderHit it (pointerCell canvasOrigin ?e) (pointerX canvasOrigin ?e)
              = None) overlapping"
    by (simp add: cell overlapping_def borderHit_def)
  have h2: "1 < length overlapping" by (simp add: overlapping_def)
  have h0: "moveHit (overlapping ! 0) (pointerCell canvasOrigin ?e)"
    by (simp add: cell overlapping_def moveHit_def)
  have h3: "moveHit (overlapping ! 1) (pointerCell canvasOrigin ?e)"
    by (simp add: cell overlapping_def moveHit_def)
  have h4: "list_all (\<lambda>it. \<not> moveHit it (pointerCell canvasOrigin ?e))
              (drop (Suc 1) overlapping)"
    by (simp add: overlapping_def)
  show ?thesis
    using pointer_down_move_last_match [OF h1 h2 h3 h4, of noGesture] h0 h3
    by (simp add: cell overlapping_def)
qed

section \<open>Pointer-move: the update a gesture emits\<close>

text \<open>
  Claim C2. While a move gesture is active on item \<open>i\<close> with captured offset \<open>off\<close>, a
  pointer-move over cell \<open>h\<close> invokes the callback exactly when \<open>h - off\<close> differs from
  the item's current start, and the update then has start \<open>h - off\<close> and the item's
  current size.
\<close>

theorem move_gesture_update:
  assumes "draggingItem st = Some \<lparr>index = i, type = Move\<rparr>"
    and "dragOffset st = Some off"
    and "i < length data"
  shows "callback (handleMouseMove data (Some r) e st) =
           (if pointerCell r e - off \<noteq> startingPosition (data ! i)
            then Inr (Some (i, \<lparr>startingPosition = pointerCell r e - off,
                                size_cells = size_cells (data ! i)\<rparr>))
            else Inr None)"
  using assms by (simp add: callback_handleMouseMove gestureUpdate_def Let_def)

text \<open>
  The scenario of the specification: item 1 (start 20, size 15) held at offset 2 and moved
  to cell 30 is reported as start 28, size 15.
\<close>

theorem move_gesture_update_witness:
  "callback (handleMouseMove initialData (Some canvasOrigin) \<lparr>clientX = 520, clientY = 100\<rparr>
      \<lparr>draggingItem = Some \<lparr>index = 1, type = Move\<rparr>, dragOffset = Some 2\<rparr>) =
     Inr (Some (1, \<lparr>startingPosition = 28, size_cells = 15\<rparr>))"
proof -
  let ?st = "\<lparr>draggingItem = Some \<lparr>index = 1, type = Move\<rparr>, dragOffset = Some 2\<rparr>"
  have h1: "draggingItem ?st = Some \<lparr>index = 1, type = Move\<rparr>" by simp
  have h2: "dragOffset ?st = Some 2" by simp
  have h3: "1 < length initialData" by (simp add: initialData_def)
  have cell: "pointerCell canvasOrigin \<lparr>clientX = 520, clientY = 100\<rparr> = 30"
    by (simp add: canvasOrigin_def pointer_defs)
  show ?thesis
    using move_gesture_update [OF h1 h2 h3, of canvasOrigin "\<lparr>clientX = 520, clientY = 100\<rparr>"]
    by (simp add: cell initialData_def)
qed

text \<open>
  Claim C3. While a start-resize gesture is active on an item, a pointer-move over cell
  \<open>h\<close> emits nothing when \<open>h \<ge> start + size - 1\<close>; otherwise the update has start \<open>h\<close>
  and size \<open>size + (start - h)\<close>. Every update so emitted spans at least one cell.
\<close>

theorem start_resize_update:
  assumes "draggingItem st = Some \<lparr>index = i, type = Start\<rparr>"
    and "i < length data"
  shows "callback (handleMouseMove data (Some r) e st) =
           (if pointerCell r e \<ge> startingPosition (data ! i) + size_cells (data ! i) - 1
            then Inr None
            else Inr (Some (i, \<lparr>startingPosition = pointerCell r e,
                                size_cells = size_cells (data ! i)
                                  + (startingPosition (data ! i) - pointerCell r e)\<rparr>)))
         \<and> (\<forall>j u. callback (handleMouseMove data (Some r) e st) = Inr (Some (j, u))
                \<longrightarrow> 1 \<le> size_cells u)"
  using assms by (auto simp: callback_handleMouseMove gestureUpdate_def Let_def)

text \<open>
  Item 0 (start 5, size 10): dragging its start to cell 3 gives start 3, size 12; hovering
  its last cell, 14, emits nothing.
\<close>

theorem start_resize_update_witness:
  "callback (handleMouseMove initialData (Some canvasOrigin) \<lparr>clientX = 250, clientY = 10\<rparr>
      \<lparr>draggingItem = Some \<lparr>index = 0, type = Start\<rparr>, dragOffset = None\<rparr>) =
     Inr (Some (0, \<lparr>startingPosition = 3, size_cells = 12\<rparr>))
   \<and> callback (handleMouseMove initialData (Some canvasOrigin) \<lparr>clientX = 500, clientY = 40\<rparr>
      \<lparr>draggingItem = Some \<lparr>index = 0, type = Start\<rparr>, dragOffset = None\<rparr>) = Inr None"
proof -
  let ?st = "\<lparr>draggingItem = Some \<lparr>index = 0, type = Start\<rparr>, dragOffset = None\<rparr>"
  have h1: "draggingItem ?st = Some \<lparr>index = 0, type = Start\<rparr>" by simp
  have h2: "0 < length initialData" by (simp add: initialData_def)
  have cell: "pointerCell canvasOrigin \<lparr>clientX = 250, clientY = 10\<rparr> = 3"
    by (simp add: canvasOrigin_def pointer_defs)
  have cell': "pointerCell canvasOrigin \<lparr>clientX = 500, clientY = 40\<rparr> = 14"
    by (simp add: canvasOrigin_def pointer_defs)
  show ?thesis
    using start_resize_update [OF h1 h2, of canvasOrigin "\<lparr>clientX = 250, clientY = 10\<rparr>"]
      start_resize_update [OF h1 h2, of canvasOrigin "\<lparr>clientX = 500, clientY = 40\<rparr>"]
    by (simp add: cell cell' initialData_def)
qed

text \<open>
  Claim C4. While an end-resize gesture is active on an item, a pointer-move over cell
  \<open>h\<close> emits nothing when \<open>h \<le> start\<close>; otherwise the update keeps the start and has
  size \<open>h - start + 1\<close>. Every update so emitted spans at least one cell.
\<close>

theorem end_resize_update:
  assumes "draggingItem st = Some \<lparr>index = i, type = End\<rparr>"
    and "i < length data"
  shows "callback (handleMouseMove data (Some r) e st) =
           (if pointerCell r e \<le> startingPosition (data ! i)
            then Inr None
            else Inr (Some (i, \<lparr>startingPosition = startingPosition (data ! i),
                                size_cells = pointerCell r e - startingPosition (data ! i) + 1\<rparr>)))
         \<and> (\<forall>j u. callback (handleMouseMove data (Some r) e st) = Inr (Some (j, u))
                \<longrightarrow> 1 \<le> size_cells u)"
  using assms by (auto simp: callback_handleMouseMove gestureUpdate_def Let_def)

text \<open>
  The scenario of the specification: dragging the end of item 0 to cell 16 gives start 5,
  size 12; hovering its first cell, 5, emits nothing.
\<close>

theorem end_resize_update_witness:
  "callback (handleMouseMove initialData (Some canvasOrigin) \<lparr>clientX = 50, clientY = 70\<rparr>
      \<lparr>draggingItem = Some \<lparr>index = 0, type = End\<rparr>, dragOffset = None\<rparr>) =
     Inr (Some (0, \<lparr>startingPosition = 5, size_cells = 12\<rparr>))
   \<and> callback (handleMouseMove initialData (Some canvasOrigin) \<lparr>clientX = 450, clientY = 10\<rparr>
      \<lparr>draggingItem = Some \<lparr>index = 0, type = End\<rparr>, dragOffset = None\<rparr>) = Inr None"
proof -
  let ?st = "\<lparr>draggingItem = Some \<lparr>index = 0, type = End\<rparr>, dragOffset = None\<rparr>"
  have h1: "draggingItem ?st = Some \<lparr>index = 0, type = End\<rparr>" by simp
  have h2: "0 < length initialData" by (simp add: initialData_def)
  have cell: "pointerCell canvasOrigin \<lparr>clientX = 50, clientY = 70\<rparr> = 16"
    by (simp add: canvasOrigin_def pointer_defs)
  have cell': "pointerCell canvasOrigin \<lparr>clientX = 450, clientY = 10\<rparr> = 5"
    by (simp add: canvasOrigin_def pointer_defs)
  show ?thesis
    using end_resize_update [OF h1 h2, of canvasOrigin "\<lparr>clientX = 50, clientY = 70\<rparr>"]
      end_resize_update [OF h1 h2, of canvasOrigin "\<lparr>clientX = 450, clientY = 10\<rparr>"]
    by (simp add: cell cell' initialData_def)
qed

text \<open>
  Claim C5. Every update emitted by a start-resize gesture keeps the end of the item:
  new start plus new size equals old start plus old size.
\<close>

theorem start_resize_end_fixed:
  assumes "draggingItem st = Some \<lparr>index = i, type = Start\<rparr>"
    and "callback (handleMouseMove data (Some r) e st) = Inr (Some (j, u))"
  shows "j = i \<and> startingPosition u + size_cells u
                  = startingPosition (data ! i) + size_cells (data ! i)"
  using assms
  by (auto simp: callback_handleMouseMove gestureUpdate_def Let_def split: if_splits)

text \<open>Item 0 dragged by its start to cell 3: 3 + 12 = 5 + 10.\<close>

theorem start_resize_end_fixed_witness:
  "callback (handleMouseMove initialData (Some canvasOrigin) \<lparr>clientX = 250, clientY = 10\<rparr>
      \<lparr>draggingItem = Some \<lparr>index = 0, type = Start\<rparr>, dragOffset = None\<rparr>) =
     Inr (Some (0, \<lparr>startingPosition = 3, size_cells = 12\<rparr>))
   \<and> startingPosition \<lparr>startingPosition = 3, size_cells = 12\<rparr>
       + size_cells \<lparr>startingPosition = 3, size_cells = 12\<rparr>
     = startingPosition (initialData ! 0) + size_cells (initialData ! 0)"
proof -
  let ?st = "\<lparr>draggingItem = Some \<lparr>index = 0, type = Start\<rparr>, dragOffset = None\<rparr>"
  let ?e = "\<lparr>clientX = 250, clientY = 10\<rparr>"
  have h1: "draggingItem ?st = Some \<lparr>index = 0, type = Start\<rparr>" by simp
  have h2: "callback (handleMouseMove initialData (Some canvasOrigin) ?e ?st) =
              Inr (Some (0, \<lparr>startingPosition = 3, size_cells = 12\<rparr>))"
    by (simp add: callback_handleMouseMove gestureUpdate_def Let_def initialData_def
          canvasOrigin_def pointer_defs)
  show ?thesis
    using start_resize_end_fixed [OF h1 h2] h2 by simp
qed

text \<open>
  Claim C10. Every update emitted by a resize gesture, start or end, has size at least 2:
  the guards of the two branches exclude an emitted size of 1.
\<close>

theorem resize_update_size_at_least_two:
  assumes "draggingItem st = Some \<lparr>index = i, type = t\<rparr>"
    and "t = Start \<or> t = End"
    and "callback (handleMouseMove data (Some r) e st) = Inr (Some (j, u))"
  shows "2 \<le> size_cells u"
  using assms
  by (auto simp: callback_handleMouseMove gestureUpdate_def Let_def split: if_splits)

text \<open>The smallest end-resize of item 0: hovering cell 6 gives size 2.\<close>

theorem resize_update_size_at_least_two_witness:
  "callback (handleMouseMove initialData (Some canvasOrigin) \<lparr>clientX = 500, clientY = 10\<rparr>
      \<lparr>draggingItem = Some \<lparr>index = 0, type = End\<rparr>, dragOffset = None\<rparr>) =
     Inr (Some (0, \<lparr>startingPosition = 5, size_cells = 2\<rparr>))
   \<and> (2::int) \<le> size_cells \<lparr>startingPosition = 5, size_cells = 2\<rparr>"
proof -
  let ?st = "\<lparr>draggingItem = Some \<lparr>index = 0, type = End\<rparr>, dragOffset = None\<rparr>"
  let ?e = "\<lparr>clientX = 500, clientY = 10\<rparr>"
  have h1: "draggingItem ?st = Some \<lparr>index = 0, type = End\<rparr>" by simp
  have h2: "End = Start \<or> End = End" by simp
  have h3: "callback (handleMouseMove initialData (Some canvasOrigin) ?e ?st) =
              Inr (Some (0, \<lparr>startingPosition = 5, size_cells = 2\<rparr>))"
    by (simp add: callback_handleMouseMove gestureUpdate_def Let_def initialData_def
          canvasOrigin_def pointer_defs)
  show ?thesis
    using resize_update_size_at_least_two [OF h1 h2 h3] h3 by simp
qed

text \<open>
  Claim C9. Updates of a move gesture are not clamped to the grid. In the application
  (48 cells, a canvas of 640 by 180 pixels) a press inside item 1 at cell 22 captures offset
  2; a pointer-move over cell 1 then emits start -1, and a pointer-move over cell 47 emits
  start 45 with size 15, a span that ends beyond the 48 cells of the grid.
\<close>

theorem move_update_unclamped:
  "handleMouseDown initialData (Some canvasOrigin) \<lparr>clientX = 520, clientY = 75\<rparr> noGesture
     = \<lparr>draggingItem = Some \<lparr>index = 1, type = Move\<rparr>, dragOffset = Some 2\<rparr>
   \<and> callback (handleMouseMove initialData (Some canvasOrigin) \<lparr>clientX = 100, clientY = 10\<rparr>
        (handleMouseDown initialData (Some canvasOrigin) \<lparr>clientX = 520, clientY = 75\<rparr> noGesture))
     = Inr (Some (1, \<lparr>startingPosition = - 1, size_cells = 15\<rparr>))
   \<and> callback (handleMouseMove initialData (Some canvasOrigin) \<lparr>clientX = 600, clientY = 160\<rparr>
        (handleMouseDown initialData (Some canvasOrigin) \<lparr>clientX = 520, clientY = 75\<rparr> noGesture))
     = Inr (Some (1, \<lparr>startingPosition = 45, size_cells = 15\<rparr>))
   \<and> gridSize < 45 + 15"
proof -
  have down: "handleMouseDown initialData (Some canvasOrigin) \<lparr>clientX = 520, clientY = 75\<rparr>
                noGesture
              = \<lparr>draggingItem = Some \<lparr>index = 1, type = Move\<rparr>, dragOffset = Some 2\<rparr>"
    by (simp add: handleMouseDown_def initialData_def canvasOrigin_def noGesture_def
          cellIndex_def js_rem_def js_trunc_def consts_defs Let_def)
  have low: "pointerCell canvasOrigin \<lparr>clientX = 100, clientY = 10\<rparr> = 1"
    by (simp add: canvasOrigin_def pointer_defs)
  have high: "pointerCell canvasOrigin \<lparr>clientX = 600, clientY = 160\<rparr> = 47"
    by (simp add: canvasOrigin_def pointer_defs)
  show ?thesis
    unfolding down callback_handleMouseMove low high
    by (simp add: gestureUpdate_def initialData_def gridSize_def Let_def)
qed

section \<open>Coordinate mapping\<close>

text \<open>
  Claim C6. The cell index of a pixel \<open>(x, y)\<close> is \<open>floor(y / 30) * 8 + floor(x / 80)\<close>,
  a function of the two coordinates alone, and it is constant on every region of 80 by 30
  pixels: all pixels of the region in column \<open>c\<close> and row \<open>r\<close> have index \<open>r * 8 + c\<close>.
\<close>

theorem cellIndex_piecewise_constant:
  "cellIndex x y = \<lfloor>y / 30\<rfloor> * 8 + \<lfloor>x / 80\<rfloor>
   \<and> (80 * real_of_int c \<le> x \<and> x < 80 * real_of_int c + 80
        \<and> 30 * real_of_int r \<le> y \<and> y < 30 * real_of_int r + 30
      \<longrightarrow> cellIndex x y = r * 8 + c)"
proof (intro conjI impI)
  show formula: "cellIndex x y = \<lfloor>y / 30\<rfloor> * 8 + \<lfloor>x / 80\<rfloor>"
    by (simp add: cellIndex_def consts_defs)
  assume region: "80 * real_of_int c \<le> x \<and> x < 80 * real_of_int c + 80
        \<and> 30 * real_of_int r \<le> y \<and> y < 30 * real_of_int r + 30"
  then have "\<lfloor>x / 80\<rfloor> = c"
    by (simp add: floor_in_cell)
  moreover from region have "\<lfloor>y / 30\<rfloor> = r"
    by (simp add: floor_in_cell)
  ultimately show "cellIndex x y = r * 8 + c"
    using formula by simp
qed

text \<open>Two pixels of the region in column 2 and row 1 both have index 10.\<close>

theorem cellIndex_piecewise_constant_witness:
  "cellIndex 170 45 = 1 * 8 + 2 \<and> cellIndex (479 / 2) 59 = 1 * 8 + 2"
proof -
  have h: "80 * real_of_int 2 \<le> 170 \<and> (170::real) < 80 * real_of_int 2 + 80
        \<and> 30 * real_of_int 1 \<le> 45 \<and> (45::real) < 30 * real_of_int 1 + 30"
    by simp
  have h': "80 * real_of_int 2 \<le> 479 / 2 \<and> (479 / 2::real) < 80 * real_of_int 2 + 80
        \<and> 30 * real_of_int 1 \<le> 59 \<and> (59::real) < 30 * real_of_int 1 + 30"
    by simp
  show ?thesis
    using cellIndex_piecewise_constant [of 170 45 2 1, THEN conjunct2, THEN mp, OF h]
      cellIndex_piecewise_constant [of "479 / 2" 59 2 1, THEN conjunct2, THEN mp, OF h']
    by simp
qed

section \<open>Renderer\<close>

text \<open>
  Claim C7, as the code has it. The loop walks from the item's start. Segment \<open>k\<close> begins
  where the cells taken by the earlier segments end; its row is that position divided by the
  number of columns, rounded down; its column is the remainder \<open>currentPosition % cols\<close>,
  which is negative for a negative position; it takes the minimum of the cells that remain
  and of \<open>cols\<close> minus the column, and that is at least one cell. The cells of all
  segments add up to the item's size (to nothing when the size is not positive), so the
  list of segments is fixed by these equations. When the start is not negative, every
  segment lies within one grid row, between column 0 and the last column, and an item of
  positive size has one segment for each row from the row of its first cell to the row of
  its last cell. For start 5 and size 10 there are exactly two segments: 3 cells from cell 5
  in row 0 (cells 5 to 7) and 7 cells from cell 8 in row 1 (cells 8 to 14).
\<close>

theorem renderer_segments:
  "sum_list (map cellsInRow (drawItem it)) = max 0 (size_cells it)
   \<and> (\<forall>k < length (drawItem it).
         seg_position (drawItem it ! k)
           = startingPosition it + sum_list (map cellsInRow (take k (drawItem it)))
         \<and> seg_row (drawItem it ! k) = seg_position (drawItem it ! k) div cols
         \<and> seg_col (drawItem it ! k) = js_rem_int (seg_position (drawItem it ! k)) cols
         \<and> cellsInRow (drawItem it ! k)
           = min (size_cells it - sum_list (map cellsInRow (take k (drawItem it))))
                 (cols - seg_col (drawItem it ! k))
         \<and> 0 < cellsInRow (drawItem it ! k))
   \<and> (0 \<le> startingPosition it \<longrightarrow>
        (\<forall>k < length (drawItem it).
           liesInOneRow (drawItem it ! k)
           \<and> 0 \<le> seg_col (drawItem it ! k)
           \<and> seg_col (drawItem it ! k) + cellsInRow (drawItem it ! k) \<le> cols))
   \<and> (0 \<le> startingPosition it \<and> 0 < size_cells it \<longrightarrow>
        int (length (drawItem it))
          = (startingPosition it + size_cells it - 1) div cols - startingPosition it div cols + 1)
   \<and> (size_cells it \<le> 0 \<longrightarrow> drawItem it = [])
   \<and> map (\<lambda>g. (seg_position g, seg_row g, seg_col g, cellsInRow g))
         (drawItem \<lparr>startingPosition = 5, size_cells = 10\<rparr>)
       = [(5, 0, 5, 3), (8, 1, 0, 7)]"
proof (intro conjI allI impI)
  show "sum_list (map cellsInRow (drawItem it)) = max 0 (size_cells it)"
    by (simp add: drawItem_def drawLoop_sum)
next
  fix k assume k: "k < length (drawItem it)"
  then have k': "k < length (drawLoop (startingPosition it) (size_cells it) (size_cells it)
                     (startingPosition it))"
    by (simp add: drawItem_def)
  note nth = drawLoop_nth [OF k', folded drawItem_def]
  show "seg_position (drawItem it ! k)
          = startingPosition it + sum_list (map cellsInRow (take k (drawItem it)))"
    using nth by simp
  show "seg_row (drawItem it ! k) = seg_position (drawItem it ! k) div cols"
    using nth by simp
  show "seg_col (drawItem it ! k) = js_rem_int (seg_position (drawItem it ! k)) cols"
    using nth by simp
  show "cellsInRow (drawItem it ! k)
          = min (size_cells it - sum_list (map cellsInRow (take k (drawItem it))))
                (cols - seg_col (drawItem it ! k))"
    using nth by simp
  have "drawItem it ! k \<in> set (drawItem it)" using k by simp
  then show "0 < cellsInRow (drawItem it ! k)"
    unfolding drawItem_def by (rule drawLoop_cells_pos)
next
  fix k assume start: "0 \<le> startingPosition it" and k: "k < length (drawItem it)"
  have "drawItem it ! k \<in> set (drawItem it)" using k by simp
  then have row: "liesInOneRow (drawItem it ! k) \<and> 0 \<le> seg_col (drawItem it ! k)
      \<and> seg_col (drawItem it ! k) + cellsInRow (drawItem it ! k) \<le> cols"
    unfolding drawItem_def by (rule drawLoop_one_row [OF start])
  from row show "liesInOneRow (drawItem it ! k)" by simp
  from row show "0 \<le> seg_col (drawItem it ! k)" by simp
  from row show "seg_col (drawItem it ! k) + cellsInRow (drawItem it ! k) \<le> cols" by simp
next
  assume "0 \<le> startingPosition it \<and> 0 < size_cells it"
  then show "int (length (drawItem it))
          = (startingPosition it + size_cells it - 1) div cols - startingPosition it div cols + 1"
    by (simp add: drawItem_def drawLoop_length)
next
  assume "size_cells it \<le> 0"
  then show "drawItem it = []"
    by (simp add: drawItem_def drawLoop_Nil)
next
  show "map (\<lambda>g. (seg_position g, seg_row g, seg_col g, cellsInRow g))
         (drawItem \<lparr>startingPosition = 5, size_cells = 10\<rparr>)
       = [(5, 0, 5, 3), (8, 1, 0, 7)]"
    by (simp add: drawItem_example segmentAt_fields js_rem_int_def cols_def)
qed

text \<open>
  Item 1 of the application (start 20, size 15): three segments whose cells add up to 15;
  the third begins at cell 32 in row 4, takes the 3 cells that remain and lies in that row.
\<close>

theorem renderer_segments_witness:
  "length (drawItem \<lparr>startingPosition = 20, size_cells = 15\<rparr>) = 3
   \<and> sum_list (map cellsInRow (drawItem \<lparr>startingPosition = 20, size_cells = 15\<rparr>)) = 15
   \<and> seg_position (drawItem \<lparr>startingPosition = 20, size_cells = 15\<rparr> ! 2) = 20 + (4 + 8)
   \<and> seg_row (drawItem \<lparr>startingPosition = 20, size_cells = 15\<rparr> ! 2) = 4
   \<and> cellsInRow (drawItem \<lparr>startingPosition = 20, size_cells = 15\<rparr> ! 2)
       = min (15 - (4 + 8)) (8 - 0)
   \<and> liesInOneRow (drawItem \<lparr>startingPosition = 20, size_cells = 15\<rparr> ! 2)"
proof -
  let ?it = "\<lparr>startingPosition = 20, size_cells = 15\<rparr>"
  have len: "length (drawItem ?it) = 3"
    by (simp add: drawItem_three_rows)
  have k: "2 < length (drawItem ?it)" by (simp add: len)
  have start: "0 \<le> startingPosition ?it" by simp
  note T = renderer_segments [of ?it]
  from T have sum: "sum_list (map cellsInRow (drawItem ?it)) = 15"
    by simp
  from T k have seg: "seg_position (drawItem ?it ! 2)
      = startingPosition ?it + sum_list (map cellsInRow (take 2 (drawItem ?it)))"
    by blast
  from T k start have row: "liesInOneRow (drawItem ?it ! 2)" by blast
  have taken: "sum_list (map cellsInRow (take 2 (drawItem ?it))) = 4 + 8"
    by (simp add: drawItem_three_rows segmentAt_fields js_rem_int_def cols_def)
  have rest: "seg_row (drawItem ?it ! 2) = 4"
    "cellsInRow (drawItem ?it ! 2) = min (15 - (4 + 8)) (8 - 0)"
    by (simp_all add: drawItem_three_rows segmentAt_fields js_rem_int_def cols_def)
  show ?thesis
    using len sum seg row taken rest by simp
qed

text \<open>
  Claim C7 as the specification words it, every item's span is split into row segments,
  fails for a negative start. Pressing inside item 1 at cell 22 and moving to cell 1 emits
  start -1 with size 15, the owner stores it, and the renderer then draws a first segment of
  9 cells from cell -1 in column -1 of row -1: it reaches cell 7 of row 0, so it does not lie
  within one row.
\<close>

theorem renderer_segment_crosses_rows_counterexample:
  "callback (handleMouseMove initialData (Some canvasOrigin) \<lparr>clientX = 100, clientY = 10\<rparr>
      (handleMouseDown initialData (Some canvasOrigin) \<lparr>clientX = 520, clientY = 75\<rparr> noGesture))
     = Inr (Some (1, \<lparr>startingPosition = - 1, size_cells = 15\<rparr>))
   \<and> handleUpdateItem initialData 1 \<lparr>startingPosition = - 1, size_cells = 15\<rparr>
     = [\<lparr>startingPosition = 5, size_cells = 10\<rparr>, \<lparr>startingPosition = - 1, size_cells = 15\<rparr>]
   \<and> map (\<lambda>g. (seg_position g, seg_row g, seg_col g, cellsInRow g))
         (drawItem \<lparr>startingPosition = - 1, size_cells = 15\<rparr>)
     = [(- 1, - 1, - 1, 9), (8, 1, 0, 6)]
   \<and> \<not> liesInOneRow (drawItem \<lparr>startingPosition = - 1, size_cells = 15\<rparr> ! 0)"
proof -
  have down: "handleMouseDown initialData (Some canvasOrigin) \<lparr>clientX = 520, clientY = 75\<rparr>
                noGesture
              = \<lparr>draggingItem = Some \<lparr>index = 1, type = Move\<rparr>, dragOffset = Some 2\<rparr>"
    by (simp add: handleMouseDown_def initialData_def canvasOrigin_def noGesture_def
          cellIndex_def js_rem_def js_trunc_def consts_defs Let_def)
  have low: "pointerCell canvasOrigin \<lparr>clientX = 100, clientY = 10\<rparr> = 1"
    by (simp add: canvasOrigin_def pointer_defs)
  have emit: "callback (handleMouseMove initialData (Some canvasOrigin)
      \<lparr>clientX = 100, clientY = 10\<rparr>
      (handleMouseDown initialData (Some canvasOrigin) \<lparr>clientX = 520, clientY = 75\<rparr> noGesture))
     = Inr (Some (1, \<lparr>startingPosition = - 1, size_cells = 15\<rparr>))"
    unfolding down callback_handleMouseMove low
    by (simp add: gestureUpdate_def initialData_def Let_def)
  have merge: "handleUpdateItem initialData 1 \<lparr>startingPosition = - 1, size_cells = 15\<rparr>
     = [\<lparr>startingPosition = 5, size_cells = 10\<rparr>, \<lparr>startingPosition = - 1, size_cells = 15\<rparr>]"
    by (simp add: handleUpdateItem_def initialData_def upt_rec)
  have segs: "map (\<lambda>g. (seg_position g, seg_row g, seg_col g, cellsInRow g))
         (drawItem \<lparr>startingPosition = - 1, size_cells = 15\<rparr>)
     = [(- 1, - 1, - 1, 9), (8, 1, 0, 6)]"
    by (simp add: drawItem_negative_start segmentAt_fields js_rem_int_def cols_def)
  have cross: "\<not> liesInOneRow (drawItem \<lparr>startingPosition = - 1, size_cells = 15\<rparr> ! 0)"
    by (simp add: drawItem_negative_start liesInOneRow_def segmentAt_fields js_rem_int_def
          cols_def)
  show ?thesis
    using emit merge segs cross by blast
qed

end
